theory Spec2Isabelle
  imports Complex_Main
begin

section \<open>Data model of the notebook\<close>

text \<open>
  The notebook \<^verbatim>\<open>Recordlinkage_Practice.ipynb\<close> works on two pandas data frames,
  \<^verbatim>\<open>dfA\<close> and \<^verbatim>\<open>dfB\<close>. A data frame is a list of column names and a list of rows in
  order; every row carries its index label (the record id) and its cells. A pandas
  index label is any hashable value: the reference data uses strings such as
  \<^verbatim>\<open>'rec-1070-org'\<close>, and \<^verbatim>\<open>ignore_index=True\<close> produces integers. A cell is a string
  or missing (\<^verbatim>\<open>NaN\<close>).
\<close>

datatype rec_id = Str_id string | Int_id int

type_synonym cell = "string option"

type_synonym row = "(string \<times> cell) list"

record frame =
  columns :: "string list"
  rows :: "(rec_id \<times> row) list"

text \<open>\<^verbatim>\<open>df.index\<close>: the index labels of a frame, in row order.\<close>

definition index_of :: "frame \<Rightarrow> rec_id list" where
  "index_of df = map fst (rows df)"

text \<open>The value of a row in a column; a row without an entry for the column holds \<^verbatim>\<open>NaN\<close>.\<close>

definition cell_at :: "row \<Rightarrow> string \<Rightarrow> cell" where
  "cell_at r c = (case map_of r c of None \<Rightarrow> None | Some v \<Rightarrow> v)"

text \<open>
  A candidate pair is an entry of the two-level \<^verbatim>\<open>MultiIndex\<close> \<^verbatim>\<open>(rec_id_1, rec_id_2)\<close>.
  The feature table \<^verbatim>\<open>potential_matches\<close> is a frame over that index: one row per pair,
  one numeric score per comparator label.
\<close>

type_synonym pair = "rec_id \<times> rec_id"

type_synonym feature_table = "(pair \<times> (string \<times> rat) list) list"

section \<open>Match decision (line 123)\<close>

text \<open>Selection by a boolean mask, \<^verbatim>\<open>df[mask]\<close>: the rows whose mask entry is true, in order.\<close>

definition mask_select :: "'a list \<Rightarrow> bool list \<Rightarrow> 'a list" where
  "mask_select xs bs = map fst (filter snd (zip xs bs))"

text \<open>\<^verbatim>\<open>potential_matches.sum(axis=1)\<close>, for one row: the sum of its scores.\<close>

definition row_sum :: "(string \<times> rat) list \<Rightarrow> rat" where
  "row_sum fv = sum_list (map snd fv)"

text \<open>\<^verbatim>\<open>matched_rows = potential_matches[potential_matches.sum(axis=1) >= 3]\<close>\<close>

definition matched_rows :: "feature_table \<Rightarrow> feature_table" where
  "matched_rows potential_matches =
     mask_select potential_matches (map (\<lambda>r. 3 \<le> row_sum (snd r)) potential_matches)"

section \<open>Merge (lines 183 to 192)\<close>

text \<open>\<^verbatim>\<open>duplicates_rows = matched_rows.index.get_level_values(1)\<close>\<close>

definition duplicates_rows :: "feature_table \<Rightarrow> rec_id list" where
  "duplicates_rows matched = map (\<lambda>r. snd (fst r)) matched"

text \<open>\<^verbatim>\<open>index.isin(values)\<close>: one boolean per index label.\<close>

definition isin :: "rec_id list \<Rightarrow> rec_id list \<Rightarrow> bool list" where
  "isin idx vals = map (\<lambda>i. i \<in> set vals) idx"

text \<open>\<^verbatim>\<open>dfB_duplicates = dfB[dfB.index.isin(duplicates_rows)]\<close>\<close>

definition dfB_duplicates :: "frame \<Rightarrow> rec_id list \<Rightarrow> frame" where
  "dfB_duplicates dfB dr = dfB\<lparr>rows := mask_select (rows dfB) (isin (index_of dfB) dr)\<rparr>"

text \<open>\<^verbatim>\<open>dfB_new = dfB[~dfB.index.isin(duplicates_rows)]\<close>\<close>

definition dfB_new :: "frame \<Rightarrow> rec_id list \<Rightarrow> frame" where
  "dfB_new dfB dr = dfB\<lparr>rows := mask_select (rows dfB) (map Not (isin (index_of dfB) dr))\<rparr>"

text \<open>
  \<^verbatim>\<open>pd.concat([X, Y], ignore_index=True)\<close>: the rows of \<^verbatim>\<open>X\<close>, then the rows of \<^verbatim>\<open>Y\<close>,
  over the union of the columns; the index labels of both are thrown away and the result
  is labelled \<^verbatim>\<open>0, 1, ..., n - 1\<close>.
\<close>

definition concat_ignore_index :: "frame \<Rightarrow> frame \<Rightarrow> frame" where
  "concat_ignore_index X Y =
     \<lparr>columns = columns X @ filter (\<lambda>c. c \<notin> set (columns X)) (columns Y),
      rows = map (\<lambda>p. (Int_id (int (fst p)), snd (snd p))) (enumerate 0 (rows X @ rows Y))\<rparr>"

text \<open>\<^verbatim>\<open>full_data = pd.concat([dfA, dfB_new], ignore_index=True)\<close>\<close>

definition full_data :: "frame \<Rightarrow> frame \<Rightarrow> feature_table \<Rightarrow> frame" where
  "full_data dfA dfB matched = concat_ignore_index dfA (dfB_new dfB (duplicates_rows matched))"

section \<open>The blocking indexer of the specification\<close>

text \<open>
  Modelled from the spec: the blocking indexer \<^verbatim>\<open>indexer.block\<close> / \<^verbatim>\<open>indexer.index\<close> is code
  of the \<^verbatim>\<open>recordlinkage\<close> package and is not among the sources. Section 4.1 of the
  specification: partition A and B each into groups keyed by the concatenation of the
  blocking-key values; for every group key present in both partitions emit the full
  cross product of that group's A-records with that group's B-records; records whose
  block key is absent or null form no pairs. The group key is kept as the list of the
  key values, one per blocking key (a composite key), so that two records have the same
  group key exactly when they agree on every blocking key.
\<close>

fun key_values :: "string list \<Rightarrow> row \<Rightarrow> string list option" where
  "key_values [] r = Some []"
| "key_values (k # ks) r =
     (case cell_at r k of
        None \<Rightarrow> None
      | Some v \<Rightarrow> (case key_values ks r of None \<Rightarrow> None | Some vs \<Rightarrow> Some (v # vs)))"

text \<open>Modelled from the spec: the group keys of a frame, each once.\<close>

definition group_keys :: "string list \<Rightarrow> frame \<Rightarrow> string list list" where
  "group_keys ks df = remdups (List.map_filter (\<lambda>r. key_values ks (snd r)) (rows df))"

text \<open>Modelled from the spec: the ids of the records of one group, in row order.\<close>

definition group_members :: "string list \<Rightarrow> frame \<Rightarrow> string list \<Rightarrow> rec_id list" where
  "group_members ks df g = map fst (filter (\<lambda>r. key_values ks (snd r) = Some g) (rows df))"

text \<open>Modelled from the spec: the partition of a frame into its groups.\<close>

definition partition_frame :: "string list \<Rightarrow> frame \<Rightarrow> (string list \<times> rec_id list) list" where
  "partition_frame ks df = map (\<lambda>g. (g, group_members ks df g)) (group_keys ks df)"

text \<open>
  Modelled from the spec: the candidate pairs, group by group; a group of A whose key
  is no group key of B contributes nothing.
\<close>

definition candidate_pairs :: "string list \<Rightarrow> frame \<Rightarrow> frame \<Rightarrow> pair list" where
  "candidate_pairs ks A B =
     concat (map (\<lambda>g. case map_of (partition_frame ks B) (fst g) of
                         None \<Rightarrow> []
                       | Some bs \<Rightarrow> List.product (snd g) bs)
                 (partition_frame ks A))"

text \<open>Modelled from the spec: the configuration error of section 7, the only error it names.\<close>

datatype error = Config_error

text \<open>
  Modelled from the spec: the indexer \<^verbatim>\<open>index(A, B, blocking_keys)\<close>. Section 7 makes an
  unknown blocking key (a key that is no column of A or of B) a configuration error that
  fails the run; otherwise the candidate pairs are returned.
\<close>

definition index :: "string list \<Rightarrow> frame \<Rightarrow> frame \<Rightarrow> error + pair list" where
  "index ks A B =
     (if list_ex (\<lambda>k. k \<notin> set (columns A) \<or> k \<notin> set (columns B)) ks then Inl Config_error
      else Inr (candidate_pairs ks A B))"

section \<open>Example data\<close>

text \<open>The scenario of section 8 of the specification: one record in each collection.\<close>

definition ex_row :: row where
  "ex_row = [(''given_name'', Some ''michaela''), (''date_of_birth'', Some ''19151111''),
             (''soc_sec_id'', Some ''5304218''), (''address_1'', Some ''stanley street''),
             (''state'', Some ''nsw'')]"

definition ex_columns :: "string list" where
  "ex_columns = [''given_name'', ''date_of_birth'', ''soc_sec_id'', ''address_1'', ''state'']"

definition ex_dfA :: frame where
  "ex_dfA = \<lparr>columns = ex_columns, rows = [(Str_id ''rec-0-org'', ex_row)]\<rparr>"

definition ex_dfB :: frame where
  "ex_dfB = \<lparr>columns = ex_columns,
             rows = [(Str_id ''rec-0-dup-0'', ex_row),
                     (Str_id ''rec-1-dup-0'', [(''given_name'', Some ''kyle''), (''state'', None)])]\<rparr>"

definition ex_matched :: feature_table where
  "ex_matched =
     [((Str_id ''rec-0-org'', Str_id ''rec-0-dup-0''),
       [(''first_name'', 1), (''date_of_birth'', 1), (''soc_sec_id'', 1), (''address_1'', 1)])]"

definition ex_int_dfA :: frame where
  "ex_int_dfA = \<lparr>columns = ex_columns, rows = [(Int_id 0, ex_row)]\<rparr>"

definition ex_empty :: frame where
  "ex_empty = \<lparr>columns = ex_columns, rows = []\<rparr>"

text \<open>Two small collections with a shared state, a state of their own and a missing state.\<close>

definition ex2_A :: frame where
  "ex2_A = \<lparr>columns = [''given_name'', ''state''],
            rows = [(Str_id ''a1'', [(''given_name'', Some ''ann''), (''state'', Some ''nsw'')]),
                    (Str_id ''a2'', [(''given_name'', Some ''bob''), (''state'', Some ''vic'')]),
                    (Str_id ''a3'', [(''given_name'', Some ''cy''), (''state'', Some ''nsw'')]),
                    (Str_id ''a4'', [(''given_name'', Some ''di''), (''state'', None)])]\<rparr>"

definition ex2_B :: frame where
  "ex2_B = \<lparr>columns = [''given_name'', ''state''],
            rows = [(Str_id ''b1'', [(''given_name'', Some ''anne''), (''state'', Some ''nsw'')]),
                    (Str_id ''b2'', [(''given_name'', Some ''di''), (''state'', None)]),
                    (Str_id ''b3'', [(''given_name'', Some ''bob''), (''state'', Some ''vic'')]),
                    (Str_id ''b4'', [(''given_name'', Some ''cy''), (''state'', Some ''nsw'')])]\<rparr>"

definition ex2_pairs :: "pair list" where
  "ex2_pairs = [(Str_id ''a2'', Str_id ''b3''),
                (Str_id ''a1'', Str_id ''b1''), (Str_id ''a1'', Str_id ''b4''),
                (Str_id ''a3'', Str_id ''b1''), (Str_id ''a3'', Str_id ''b4'')]"

section \<open>Facts about the mask selection\<close>

lemma mask_select_map: "mask_select xs (map P xs) = filter P xs"
  by (induction xs) (simp_all add: mask_select_def)

lemma matched_rows_filter:
  "matched_rows pm = filter (\<lambda>r. 3 \<le> row_sum (snd r)) pm"
  by (simp add: matched_rows_def mask_select_map)

section \<open>Facts about the merge\<close>

lemma rows_dfB_new:
  "rows (dfB_new dfB dr) = filter (\<lambda>r. fst r \<notin> set dr) (rows dfB)"
proof -
  have "isin (index_of dfB) dr = map (\<lambda>r. fst r \<in> set dr) (rows dfB)"
    by (simp add: isin_def index_of_def)
  then show ?thesis
    by (simp add: dfB_new_def mask_select_map comp_def)
qed

lemma rows_dfB_duplicates:
  "rows (dfB_duplicates dfB dr) = filter (\<lambda>r. fst r \<in> set dr) (rows dfB)"
proof -
  have "isin (index_of dfB) dr = map (\<lambda>r. fst r \<in> set dr) (rows dfB)"
    by (simp add: isin_def index_of_def)
  then show ?thesis
    by (simp add: dfB_duplicates_def mask_select_map)
qed

lemma cells_concat_ignore_index:
  "map snd (rows (concat_ignore_index X Y)) = map snd (rows X) @ map snd (rows Y)"
proof -
  have "snd \<circ> (\<lambda>p::nat \<times> rec_id \<times> row. (Int_id (int (fst p)), snd (snd p))) = snd \<circ> snd"
    by (simp add: fun_eq_iff)
  then have "map snd (rows (concat_ignore_index X Y)) = map (snd \<circ> snd) (enumerate 0 (rows X @ rows Y))"
    by (simp add: concat_ignore_index_def)
  also have "\<dots> = map snd (map snd (enumerate 0 (rows X @ rows Y)))"
    by (simp only: map_map)
  finally show ?thesis by simp
qed

lemma index_concat_ignore_index:
  "index_of (concat_ignore_index X Y) =
     map (\<lambda>i. Int_id (int i)) [0..<length (rows X) + length (rows Y)]"
proof -
  have "fst \<circ> (\<lambda>p::nat \<times> rec_id \<times> row. (Int_id (int (fst p)), snd (snd p))) = (\<lambda>i. Int_id (int i)) \<circ> fst"
    by (simp add: fun_eq_iff)
  then have "index_of (concat_ignore_index X Y) =
          map ((\<lambda>i. Int_id (int i)) \<circ> fst) (enumerate 0 (rows X @ rows Y))"
    by (simp add: concat_ignore_index_def index_of_def)
  also have "\<dots> = map (\<lambda>i. Int_id (int i)) (map fst (enumerate 0 (rows X @ rows Y)))"
    by (simp only: map_map)
  finally show ?thesis by simp
qed

lemma length_concat_ignore_index:
  "length (rows (concat_ignore_index X Y)) = length (rows X) + length (rows Y)"
  by (simp add: concat_ignore_index_def)

lemma length_filter_matched_ids:
  assumes "distinct (map fst rs)" and "D \<subseteq> set (map fst rs)" 
  shows "length (filter (\<lambda>r. fst r \<in> D) rs) = card D"
proof -
  have "distinct (map fst (filter (\<lambda>r. fst r \<in> D) rs))"
    using assms(1) by (rule distinct_map_filter)
  then have "length (filter (\<lambda>r. fst r \<in> D) rs) = card (set (map fst (filter (\<lambda>r. fst r \<in> D) rs)))"
    by (metis distinct_card length_map)
  moreover have "set (map fst (filter (\<lambda>r. fst r \<in> D) rs)) = D"
    using assms(2) by auto
  ultimately show ?thesis by simp
qed

lemma length_unmatched:
  assumes "distinct (index_of dfB)" and "set dr \<subseteq> set (index_of dfB)"
  shows "int (length (rows (dfB_new dfB dr))) = int (length (rows dfB)) - int (card (set dr))"
proof -
  have "length (filter (\<lambda>r. fst r \<in> set dr) (rows dfB)) = card (set dr)"
    using assms by (intro length_filter_matched_ids) (simp_all add: index_of_def)
  moreover have "length (rows dfB) =
      length (filter (\<lambda>r. fst r \<in> set dr) (rows dfB)) + length (filter (\<lambda>r. fst r \<notin> set dr) (rows dfB))"
    using sum_length_filter_compl [of "\<lambda>r. fst r \<in> set dr" "rows dfB"] by simp
  ultimately show ?thesis by (simp add: rows_dfB_new)
qed

section \<open>Facts about the indexer\<close>

lemma key_values_Some_iff:
  "key_values ks r = Some vs \<longleftrightarrow> map (cell_at r) ks = map Some vs"
proof (induction ks arbitrary: vs)
  case Nil
  then show ?case by auto
next
  case (Cons k ks)
  show ?case
  proof (cases vs)
    case Nil
    then show ?thesis by (simp split: option.splits)
  next
    case (Cons v ws)
    have "key_values ks r = Some ws \<longleftrightarrow> map (cell_at r) ks = map Some ws"
      by (rule Cons.IH)
    then show ?thesis
      using Cons by (auto split: option.splits)
  qed
qed

lemma key_values_None_iff:
  "key_values ks r = None \<longleftrightarrow> (\<exists>k\<in>set ks. cell_at r k = None)"
  by (induction ks) (auto split: option.splits)

lemma key_values_agree:
  assumes "key_values ks ra = Some g" and "key_values ks rb = Some g"
  shows "\<forall>k\<in>set ks. cell_at ra k = cell_at rb k \<and> cell_at ra k \<noteq> None"
proof -
  have a: "map (cell_at ra) ks = map Some g" and b: "map (cell_at rb) ks = map Some g"
    using assms by (simp_all add: key_values_Some_iff)
  then have "map (cell_at ra) ks = map (cell_at rb) ks" by simp
  then have "\<forall>k\<in>set ks. cell_at ra k = cell_at rb k" by simp
  moreover have "\<forall>k\<in>set ks. cell_at ra k \<noteq> None"
    using assms(1) key_values_None_iff [of ks ra] by auto
  ultimately show ?thesis by blast
qed

lemma set_group_keys:
  "set (group_keys ks df) = {g. \<exists>r\<in>set (rows df). key_values ks (snd r) = Some g}"
  by (force simp: group_keys_def map_filter_def image_iff)

lemma distinct_group_keys: "distinct (group_keys ks df)"
  by (simp add: group_keys_def)

lemma set_group_members:
  "set (group_members ks df g) = {i. \<exists>r. (i, r) \<in> set (rows df) \<and> key_values ks r = Some g}"
  by (force simp: group_members_def image_iff)

lemma map_of_partition_frame:
  "map_of (partition_frame ks df) g =
     (if g \<in> set (group_keys ks df) then Some (group_members ks df g) else None)"
  by (simp add: partition_frame_def map_of_map_restrict restrict_map_def)

lemma candidate_pairs_groups:
  "candidate_pairs ks A B =
     concat (map (\<lambda>g. if g \<in> set (group_keys ks B)
                       then List.product (group_members ks A g) (group_members ks B g) else [])
                 (group_keys ks A))"
proof -
  have "(case map_of (partition_frame ks B) (fst p) of None \<Rightarrow> [] | Some bs \<Rightarrow> List.product (snd p) bs) =
        (if fst p \<in> set (group_keys ks B)
         then List.product (snd p) (group_members ks B (fst p)) else [])" for p :: "string list \<times> rec_id list"
    by (simp add: map_of_partition_frame)
  then show ?thesis
    by (simp add: candidate_pairs_def partition_frame_def [of ks A] comp_def cong: if_cong)
qed

lemma set_candidate_pairs:
  "(a, b) \<in> set (candidate_pairs ks A B) \<longleftrightarrow>
     (\<exists>g ra rb. (a, ra) \<in> set (rows A) \<and> (b, rb) \<in> set (rows B)
        \<and> key_values ks ra = Some g \<and> key_values ks rb = Some g)"
  by (auto simp: candidate_pairs_groups set_group_keys set_group_members) force+

lemma distinct_concat_map:
  assumes "distinct gs"
    and "\<And>g. g \<in> set gs \<Longrightarrow> distinct (f g)"
    and "\<And>g h. g \<in> set gs \<Longrightarrow> h \<in> set gs \<Longrightarrow> g \<noteq> h \<Longrightarrow> set (f g) \<inter> set (f h) = {}"
  shows "distinct (concat (map f gs))"
  using assms
proof (induction gs)
  case Nil
  then show ?case by simp
next
  case (Cons g gs)
  have "distinct (concat (map f gs))"
    using Cons.prems by (intro Cons.IH) auto
  moreover have "distinct (f g)"
    using Cons.prems(2) by simp
  moreover have "set (f g) \<inter> set (f h) = {}" if "h \<in> set gs" for h
    using Cons.prems(1) Cons.prems(3) [of g h] that by auto
  ultimately show ?case by auto
qed

lemma row_of_id_unique:
  assumes "distinct (index_of df)" and "(i, r) \<in> set (rows df)" and "(i, r') \<in> set (rows df)"
  shows "r = r'"
  using assms by (auto simp: index_of_def dest: eq_key_imp_eq_value)

lemma distinct_group_members:
  "distinct (index_of df) \<Longrightarrow> distinct (group_members ks df g)"
  by (simp add: group_members_def index_of_def distinct_map_filter)

lemma group_members_disjoint:
  assumes "distinct (index_of df)" and "g \<noteq> h"
  shows "set (group_members ks df g) \<inter> set (group_members ks df h) = {}"
proof -
  have False if ig: "i \<in> set (group_members ks df g)" and ih: "i \<in> set (group_members ks df h)" for i
  proof -
    obtain r where r: "(i, r) \<in> set (rows df)" "key_values ks r = Some g"
      using ig by (auto simp: set_group_members)
    obtain r' where r': "(i, r') \<in> set (rows df)" "key_values ks r' = Some h"
      using ih by (auto simp: set_group_members)
    have "r = r'"
      using assms(1) r(1) r'(1) by (rule row_of_id_unique)
    with r(2) r'(2) assms(2) show False by simp
  qed
  then show ?thesis by blast
qed

lemma distinct_candidate_pairs:
  assumes "distinct (index_of A)" and "distinct (index_of B)"
  shows "distinct (candidate_pairs ks A B)"
  unfolding candidate_pairs_groups
proof (rule distinct_concat_map)
  show "distinct (group_keys ks A)"
    by (rule distinct_group_keys)
next
  fix g
  show "distinct (if g \<in> set (group_keys ks B)
                  then List.product (group_members ks A g) (group_members ks B g) else [])"
    using assms by (simp add: distinct_product distinct_group_members)
next
  fix g h :: "string list"
  assume "g \<noteq> h"
  then have "set (group_members ks A g) \<inter> set (group_members ks A h) = {}"
    using assms(1) by (intro group_members_disjoint)
  then show "set (if g \<in> set (group_keys ks B)
                  then List.product (group_members ks A g) (group_members ks B g) else [])
           \<inter> set (if h \<in> set (group_keys ks B)
                  then List.product (group_members ks A h) (group_members ks B h) else []) = {}"
    by auto
qed

lemma index_Inr: "index ks A B = Inr ps \<Longrightarrow> ps = candidate_pairs ks A B"
  by (simp add: index_def split: if_splits)

lemma index_total:
  "set ks \<subseteq> set (columns A) \<inter> set (columns B) \<Longrightarrow> index ks A B = Inr (candidate_pairs ks A B)"
  by (auto simp: index_def list_ex_iff)

lemma ex2_index: "index [''state''] ex2_A ex2_B = Inr ex2_pairs"
  by (simp add: index_def candidate_pairs_def partition_frame_def group_keys_def group_members_def
      map_filter_def cell_at_def ex2_A_def ex2_B_def ex2_pairs_def)

lemma ex2_distinct: "distinct (index_of ex2_A) \<and> distinct (index_of ex2_B)"
  by (simp add: index_of_def ex2_A_def ex2_B_def)

section \<open>The match decision\<close>

text \<open>
  C7. A row of the feature table (a candidate pair with its scores) is kept in
  \<^verbatim>\<open>matched_rows\<close> exactly when it is a row of the table and the sum of its scores is at
  least 3, the threshold written in the notebook; the kept rows stay in table order.
\<close>

theorem matched_rows_iff_sum_ge_3:
  "(r \<in> set (matched_rows pm) \<longleftrightarrow> r \<in> set pm \<and> 3 \<le> row_sum (snd r))
   \<and> matched_rows pm = filter (\<lambda>r. 3 \<le> row_sum (snd r)) pm"
  by (simp add: matched_rows_filter)

theorem matched_rows_iff_sum_ge_3_witness:
  "matched_rows
     [((Str_id ''a1'', Str_id ''b1''), [(''first_name'', 1), (''date_of_birth'', 1), (''soc_sec_id'', 1), (''address_1'', 0)]),
      ((Str_id ''a1'', Str_id ''b2''), [(''first_name'', 1), (''date_of_birth'', 0), (''soc_sec_id'', 1), (''address_1'', 0)])]
   = [((Str_id ''a1'', Str_id ''b1''), [(''first_name'', 1), (''date_of_birth'', 1), (''soc_sec_id'', 1), (''address_1'', 0)])]"
  using matched_rows_iff_sum_ge_3
    [where r = "((Str_id ''a1'', Str_id ''b1''), [(''first_name'', 1), (''date_of_birth'', 1), (''soc_sec_id'', 1), (''address_1'', 0)])"
       and pm = "[((Str_id ''a1'', Str_id ''b1''), [(''first_name'', 1), (''date_of_birth'', 1), (''soc_sec_id'', 1), (''address_1'', 0)]),
          ((Str_id ''a1'', Str_id ''b2''), [(''first_name'', 1), (''date_of_birth'', 0), (''soc_sec_id'', 1), (''address_1'', 0)])]"]
  by (simp add: row_sum_def)

section \<open>The merge\<close>

text \<open>
  C1, as the notebook has it. The cells of the merged output are the cells of all rows of
  A in their order, followed by the cells of exactly those rows of B whose id is not the
  B-side id of a matched pair, in their order; so no row of A is dropped. When the ids
  of B are pairwise distinct and every matched B-side id is the id of a row of B (the
  data model of the specification), the number of rows is |A| + |B| minus the number of
  matched B ids. The ids of A themselves are not kept: see the counterexample.
\<close>

theorem merge_A_then_unmatched_B:
  "map snd (rows (full_data dfA dfB matched)) =
     map snd (rows dfA) @ map snd (filter (\<lambda>r. fst r \<notin> set (duplicates_rows matched)) (rows dfB))
   \<and> set (duplicates_rows matched) = {b. \<exists>a fv. ((a, b), fv) \<in> set matched}
   \<and> take (length (rows dfA)) (map snd (rows (full_data dfA dfB matched))) = map snd (rows dfA)
   \<and> (distinct (index_of dfB) \<and> set (duplicates_rows matched) \<subseteq> set (index_of dfB) \<longrightarrow>
        int (length (rows (full_data dfA dfB matched))) =
          int (length (rows dfA)) + int (length (rows dfB)) - int (card (set (duplicates_rows matched))))"
proof -
  have cells: "map snd (rows (full_data dfA dfB matched)) =
     map snd (rows dfA) @ map snd (filter (\<lambda>r. fst r \<notin> set (duplicates_rows matched)) (rows dfB))"
    by (simp add: full_data_def cells_concat_ignore_index rows_dfB_new)
  have ids: "set (duplicates_rows matched) = {b. \<exists>a fv. ((a, b), fv) \<in> set matched}"
    by (force simp: duplicates_rows_def image_iff)
  have first: "take (length (rows dfA)) (map snd (rows (full_data dfA dfB matched))) = map snd (rows dfA)"
    by (simp add: cells)
  have count: "int (length (rows (full_data dfA dfB matched))) =
          int (length (rows dfA)) + int (length (rows dfB)) - int (card (set (duplicates_rows matched)))"
    if "distinct (index_of dfB)" "set (duplicates_rows matched) \<subseteq> set (index_of dfB)"
    using length_unmatched [OF that] by (simp add: full_data_def length_concat_ignore_index)
  from cells ids first count show ?thesis by blast
qed

theorem merge_A_then_unmatched_B_witness:
  "map snd (rows (full_data ex_dfA ex_dfB ex_matched)) = [ex_row, [(''given_name'', Some ''kyle''), (''state'', None)]]
   \<and> int (length (rows (full_data ex_dfA ex_dfB ex_matched))) = 1 + 2 - 1"
proof -
  have d: "distinct (index_of ex_dfB) \<and> set (duplicates_rows ex_matched) \<subseteq> set (index_of ex_dfB)"
    by (simp add: index_of_def ex_dfB_def duplicates_rows_def ex_matched_def)
  have c: "card (set (duplicates_rows ex_matched)) = 1"
    by (simp add: duplicates_rows_def ex_matched_def)
  show ?thesis
    using merge_A_then_unmatched_B [where dfA = ex_dfA and dfB = ex_dfB and matched = ex_matched] d c
    by (simp add: ex_dfA_def ex_dfB_def ex_matched_def duplicates_rows_def)
qed

text \<open>
  The claim C1 says that no id of A is ever dropped. In the scenario of section 8 the id
  of the only record of A is absent from the merged output, whose ids are 0 and 1.
\<close>

theorem merge_drops_A_id:
  "Str_id ''rec-0-org'' \<in> set (index_of ex_dfA)
   \<and> Str_id ''rec-0-org'' \<notin> set (index_of (full_data ex_dfA ex_dfB ex_matched))
   \<and> index_of (full_data ex_dfA ex_dfB ex_matched) = [Int_id 0, Int_id 1]"
  by (simp add: index_of_def full_data_def concat_ignore_index_def dfB_new_def isin_def
      mask_select_def duplicates_rows_def ex_dfA_def ex_dfB_def ex_matched_def)

text \<open>
  C10, as the notebook has it. \<^verbatim>\<open>ignore_index=True\<close> labels the merged output with the
  consecutive integers 0, ..., n - 1, so no string id survives; the row at position i of A
  keeps its cells under the new id i, and the j-th surviving row of B keeps its cells
  under the new id |A| + j. A record keeps the id it had only if that id already was the
  integer of its position in the output: see the counterexample.
\<close>

theorem merge_reindexes:
  "index_of (full_data dfA dfB matched) =
     map (\<lambda>i. Int_id (int i))
       [0..<length (rows dfA) + length (rows (dfB_new dfB (duplicates_rows matched)))]
   \<and> (\<forall>s. Str_id s \<notin> set (index_of (full_data dfA dfB matched)))
   \<and> (\<forall>i < length (rows dfA).
         rows (full_data dfA dfB matched) ! i = (Int_id (int i), snd (rows dfA ! i)))
   \<and> (\<forall>j < length (rows (dfB_new dfB (duplicates_rows matched))).
         rows (full_data dfA dfB matched) ! (length (rows dfA) + j) =
           (Int_id (int (length (rows dfA) + j)), snd (rows (dfB_new dfB (duplicates_rows matched)) ! j)))"
proof -
  let ?B = "dfB_new dfB (duplicates_rows matched)"
  have idx: "index_of (full_data dfA dfB matched) =
     map (\<lambda>i. Int_id (int i)) [0..<length (rows dfA) + length (rows ?B)]"
    by (simp add: full_data_def index_concat_ignore_index)
  have nostr: "\<forall>s. Str_id s \<notin> set (index_of (full_data dfA dfB matched))"
    by (auto simp: idx)
  have nth: "rows (full_data dfA dfB matched) ! i = (Int_id (int i), snd ((rows dfA @ rows ?B) ! i))"
    if "i < length (rows dfA) + length (rows ?B)" for i
    using that by (simp add: full_data_def concat_ignore_index_def nth_enumerate_eq)
  have a: "\<forall>i < length (rows dfA).
         rows (full_data dfA dfB matched) ! i = (Int_id (int i), snd (rows dfA ! i))"
    using nth by (simp add: nth_append)
  have b: "\<forall>j < length (rows ?B).
         rows (full_data dfA dfB matched) ! (length (rows dfA) + j) =
           (Int_id (int (length (rows dfA) + j)), snd (rows ?B ! j))"
    using nth by (simp add: nth_append)
  from idx nostr a b show ?thesis by blast
qed

theorem merge_reindexes_witness:
  "index_of (full_data ex_dfA ex_dfB ex_matched) = [Int_id 0, Int_id 1]
   \<and> rows (full_data ex_dfA ex_dfB ex_matched) ! 0 = (Int_id 0, ex_row)
   \<and> Str_id ''rec-0-org'' \<notin> set (index_of (full_data ex_dfA ex_dfB ex_matched))"
proof -
  have n: "length (rows ex_dfA) = 1" "length (rows (dfB_new ex_dfB (duplicates_rows ex_matched))) = 1"
    by (simp_all add: ex_dfA_def ex_dfB_def ex_matched_def dfB_new_def isin_def index_of_def
        mask_select_def duplicates_rows_def)
  have r: "snd (rows ex_dfA ! 0) = ex_row"
    by (simp add: ex_dfA_def)
  have u: "[0..<Suc (Suc 0)] = [0, Suc 0]"
    by (simp add: upt_rec)
  show ?thesis
    using merge_reindexes [where dfA = ex_dfA and dfB = ex_dfB and matched = ex_matched] n r u by simp
qed

text \<open>
  The claim C10 says that no record of the merged output carries the id it had. A frame
  with the default integer index keeps it: the record with id 0 of A is the record with
  id 0 of the merged output.
\<close>

theorem merge_keeps_integer_id:
  "rows ex_int_dfA ! 0 = (Int_id 0, ex_row)
   \<and> rows (full_data ex_int_dfA ex_empty []) ! 0 = (Int_id 0, ex_row)"
  by (simp add: full_data_def concat_ignore_index_def dfB_new_def isin_def index_of_def
      mask_select_def duplicates_rows_def ex_int_dfA_def ex_empty_def)

section \<open>The blocking indexer\<close>

text \<open>
  C2. Every candidate pair the indexer returns joins a record of A and a record of B
  that hold the same, present value under every blocking key; when the ids are unique
  within each collection, these are the records the two ids of the pair stand for.
\<close>

theorem pairs_agree_on_blocking_keys:
  assumes "index ks A B = Inr ps" and "(a, b) \<in> set ps"
  shows "(\<exists>ra rb. (a, ra) \<in> set (rows A) \<and> (b, rb) \<in> set (rows B)
            \<and> (\<forall>k\<in>set ks. cell_at ra k = cell_at rb k \<and> cell_at ra k \<noteq> None))
       \<and> (distinct (index_of A) \<and> distinct (index_of B) \<longrightarrow>
            (\<forall>ra rb. (a, ra) \<in> set (rows A) \<and> (b, rb) \<in> set (rows B) \<longrightarrow>
               (\<forall>k\<in>set ks. cell_at ra k = cell_at rb k \<and> cell_at ra k \<noteq> None)))"
proof -
  have "(a, b) \<in> set (candidate_pairs ks A B)"
    using assms index_Inr by blast
  then obtain g ra rb where w: "(a, ra) \<in> set (rows A)" "(b, rb) \<in> set (rows B)"
      "key_values ks ra = Some g" "key_values ks rb = Some g"
    by (auto simp: set_candidate_pairs)
  have agree: "\<forall>k\<in>set ks. cell_at ra k = cell_at rb k \<and> cell_at ra k \<noteq> None"
    using w(3,4) by (rule key_values_agree)
  have "\<forall>k\<in>set ks. cell_at ra' k = cell_at rb' k \<and> cell_at ra' k \<noteq> None"
    if "distinct (index_of A)" "distinct (index_of B)" "(a, ra') \<in> set (rows A)" "(b, rb') \<in> set (rows B)"
    for ra' rb'
  proof -
    have "ra' = ra" using that(1,3) w(1) by (rule row_of_id_unique)
    moreover have "rb' = rb" using that(2,4) w(2) by (rule row_of_id_unique)
    ultimately show ?thesis using agree by blast
  qed
  with w(1,2) agree show ?thesis by blast
qed

theorem pairs_agree_on_blocking_keys_witness:
  "index [''state''] ex2_A ex2_B = Inr ex2_pairs
   \<and> (Str_id ''a1'', Str_id ''b4'') \<in> set ex2_pairs
   \<and> cell_at [(''given_name'', Some ''ann''), (''state'', Some ''nsw'')] ''state''
       = cell_at [(''given_name'', Some ''cy''), (''state'', Some ''nsw'')] ''state''
   \<and> cell_at [(''given_name'', Some ''ann''), (''state'', Some ''nsw'')] ''state'' = Some ''nsw''"
proof -
  have p: "(Str_id ''a1'', Str_id ''b4'') \<in> set ex2_pairs"
    by (simp add: ex2_pairs_def)
  have ra: "(Str_id ''a1'', [(''given_name'', Some ''ann''), (''state'', Some ''nsw'')]) \<in> set (rows ex2_A)"
    by (simp add: ex2_A_def)
  have rb: "(Str_id ''b4'', [(''given_name'', Some ''cy''), (''state'', Some ''nsw'')]) \<in> set (rows ex2_B)"
    by (simp add: ex2_B_def)
  have "cell_at [(''given_name'', Some ''ann''), (''state'', Some ''nsw'')] ''state''
       = cell_at [(''given_name'', Some ''cy''), (''state'', Some ''nsw'')] ''state''"
    using pairs_agree_on_blocking_keys [OF ex2_index p] ex2_distinct ra rb by fastforce
  then show ?thesis
    using ex2_index p by (simp add: cell_at_def)
qed

text \<open>
  C3. When the ids are unique within A and within B, the indexer returns no candidate
  pair twice; the first id of every pair is an id of A and the second an id of B. The
  ids are unique within a collection only, so the two ids of a pair may be equal as
  values while they name records of different collections.
\<close>

theorem pairs_distinct_and_across:
  assumes "index ks A B = Inr ps"
  shows "(distinct (index_of A) \<and> distinct (index_of B) \<longrightarrow> distinct ps)
       \<and> (\<forall>p\<in>set ps. fst p \<in> set (index_of A) \<and> snd p \<in> set (index_of B))"
proof -
  have ps: "ps = candidate_pairs ks A B"
    using assms by (rule index_Inr)
  have "fst p \<in> set (index_of A) \<and> snd p \<in> set (index_of B)" if "p \<in> set ps" for p
  proof -
    have "(fst p, snd p) \<in> set (candidate_pairs ks A B)"
      using that ps by simp
    then show ?thesis
      unfolding set_candidate_pairs by (force simp: index_of_def)
  qed
  then show ?thesis
    using distinct_candidate_pairs ps by blast
qed

theorem pairs_distinct_and_across_witness:
  "index [''state''] ex2_A ex2_B = Inr ex2_pairs
   \<and> distinct ex2_pairs
   \<and> fst (Str_id ''a3'', Str_id ''b1'') \<in> set (index_of ex2_A)
   \<and> snd (Str_id ''a3'', Str_id ''b1'') \<in> set (index_of ex2_B)"
proof -
  have p: "(Str_id ''a3'', Str_id ''b1'') \<in> set ex2_pairs"
    by (simp add: ex2_pairs_def)
  show ?thesis
    using pairs_distinct_and_across [OF ex2_index] ex2_distinct ex2_index p by blast
qed

text \<open>
  C4. With ids unique within a collection, a record of A whose value under some blocking
  key is missing is in no candidate pair, and likewise a record of B; so two records that
  both miss the blocking key are never paired with each other.
\<close>

theorem null_key_forms_no_pair:
  assumes "index ks A B = Inr ps"
  shows "(distinct (index_of A) \<and> (a, ra) \<in> set (rows A) \<and> (\<exists>k\<in>set ks. cell_at ra k = None)
            \<longrightarrow> (\<forall>b'. (a, b') \<notin> set ps))
       \<and> (distinct (index_of B) \<and> (b, rb) \<in> set (rows B) \<and> (\<exists>k\<in>set ks. cell_at rb k = None)
            \<longrightarrow> (\<forall>a'. (a', b) \<notin> set ps))"
proof -
  have ps: "ps = candidate_pairs ks A B"
    using assms by (rule index_Inr)
  have left: "(a, b') \<notin> set ps"
    if "distinct (index_of A)" "(a, ra) \<in> set (rows A)" "\<exists>k\<in>set ks. cell_at ra k = None" for b'
  proof
    assume "(a, b') \<in> set ps"
    then obtain g r where r: "(a, r) \<in> set (rows A)" "key_values ks r = Some g"
      using ps by (auto simp: set_candidate_pairs)
    have "r = ra" using that(1) r(1) that(2) by (rule row_of_id_unique)
    moreover have "key_values ks ra = None"
      using that(3) by (simp add: key_values_None_iff)
    ultimately show False using r(2) by simp
  qed
  have right: "(a', b) \<notin> set ps"
    if "distinct (index_of B)" "(b, rb) \<in> set (rows B)" "\<exists>k\<in>set ks. cell_at rb k = None" for a'
  proof
    assume "(a', b) \<in> set ps"
    then obtain g r where r: "(b, r) \<in> set (rows B)" "key_values ks r = Some g"
      using ps by (auto simp: set_candidate_pairs)
    have "r = rb" using that(1) r(1) that(2) by (rule row_of_id_unique)
    moreover have "key_values ks rb = None"
      using that(3) by (simp add: key_values_None_iff)
    ultimately show False using r(2) by simp
  qed
  from left right show ?thesis by blast
qed

theorem null_key_forms_no_pair_witness:
  "index [''state''] ex2_A ex2_B = Inr ex2_pairs
   \<and> cell_at [(''given_name'', Some ''di''), (''state'', None)] ''state'' = None
   \<and> (Str_id ''a4'', Str_id ''b2'') \<notin> set ex2_pairs
   \<and> (Str_id ''a1'', Str_id ''b2'') \<notin> set ex2_pairs
   \<and> (Str_id ''a4'', Str_id ''b1'') \<notin> set ex2_pairs"
proof -
  have n: "cell_at [(''given_name'', Some ''di''), (''state'', None)] ''state'' = None"
    by (simp add: cell_at_def)
  have ra: "(Str_id ''a4'', [(''given_name'', Some ''di''), (''state'', None)]) \<in> set (rows ex2_A)"
    by (simp add: ex2_A_def)
  have rb: "(Str_id ''b2'', [(''given_name'', Some ''di''), (''state'', None)]) \<in> set (rows ex2_B)"
    by (simp add: ex2_B_def)
  have "(\<forall>b'. (Str_id ''a4'', b') \<notin> set ex2_pairs) \<and> (\<forall>a'. (a', Str_id ''b2'') \<notin> set ex2_pairs)"
    using null_key_forms_no_pair [OF ex2_index, where a = "Str_id ''a4''"
        and ra = "[(''given_name'', Some ''di''), (''state'', None)]" and b = "Str_id ''b2''"
        and rb = "[(''given_name'', Some ''di''), (''state'', None)]"] ex2_distinct n ra rb
    by simp
  then show ?thesis
    using ex2_index n by blast
qed

end
